theory Spec2Isabelle
  imports Main "HOL-Library.Sublist"
begin

section \<open>The service-worker audit: data\<close>

text \<open>
  The audit reads two properties of a URL object, \<open>href\<close> and \<open>origin\<close>, both strings.
  JavaScript strings are sequences of code units; \<open>length\<close> and \<open>startsWith\<close> work on
  these, as \<open>length\<close> and \<open>prefix\<close> do on a HOL list.
\<close>

record url =
  href :: string
  origin :: string

text \<open>
  The \<open>URL\<close> class comes from \<open>lib/url-shim.js\<close>, which is outside the audit's file.
  It is a parameter of every function below: \<open>new URL(s)\<close> is \<open>newURL s\<close>, and
  \<open>None\<close> stands for the \<open>TypeError\<close> the constructor throws on a string that is not a URL.
\<close>

type_synonym url_ctor = "string \<Rightarrow> url option"

datatype error = TypeError

record ServiceWorkerVersion =
  status :: string
  scriptURL :: string
  registrationId :: string

text \<open>The registration's \<open>registrationId\<close> is the field \<open>regId\<close> here (a record field name is
  one constant).\<close>

record ServiceWorkerRegistration =
  regId :: string
  scopeURL :: string

text \<open>\<open>{scopeUrl, scriptUrl}\<close>, the entries of \<open>scriptByScopeUrlList\<close>.\<close>

record ScopeMatch =
  scopeUrl :: string
  scriptUrl :: string

text \<open>\<open>{type: 'debugdata', scriptUrl, scopeUrl}\<close>\<close>

record DebugData = ScopeMatch +
  dtype :: string

text \<open>
  \<open>WebAppManifest.value.start_url.value\<close>: the artifact is absent or an object; its
  \<open>value\<close> is absent or the parsed manifest; \<open>start_url\<close> is a property object
  with a string \<open>value\<close>.
\<close>

record ManifestProp =
  prop_value :: string

record Manifest =
  start_url :: ManifestProp

record WebAppManifestArtifact =
  manifest_value :: "Manifest option"

record URLArtifact =
  finalUrl :: string

record ServiceWorkerArtifact =
  versions :: "ServiceWorkerVersion list"
  registrations :: "ServiceWorkerRegistration list"

record Artifacts =
  URL :: URLArtifact
  ServiceWorker :: ServiceWorkerArtifact
  WebAppManifest :: "WebAppManifestArtifact option"

text \<open>
  \<open>str_(UIStrings.x, values)\<close>: a message is the template it was made from and the
  values of its placeholders (\<open>{pageUrl}\<close>; \<open>{startUrl}\<close> and \<open>{scopeUrl}\<close>).
\<close>

datatype IcuMessage =
    explanationOutOfScope string
  | explanationNoManifest
  | explanationBadManifest
  | explanationBadStartUrl string string

text \<open>The audit's product; a key the returned object does not have is \<open>None\<close>.\<close>

record Product =
  score :: nat
  explanation :: "IcuMessage option"
  details :: "DebugData option"

section \<open>The audit's functions\<close>

text \<open>\<open>Array.prototype.filter\<close> with a callback that may throw: the first throw ends the
  whole call.\<close>

fun filter_throwing :: "('a \<Rightarrow> error + bool) \<Rightarrow> 'a list \<Rightarrow> error + 'a list" where
  "filter_throwing f [] = Inr []"
| "filter_throwing f (x # xs) =
     (case f x of
        Inl e \<Rightarrow> Inl e
      | Inr keep \<Rightarrow>
          (case filter_throwing f xs of
             Inl e \<Rightarrow> Inl e
           | Inr r \<Rightarrow> Inr (if keep then x # r else r)))"

definition sameOrigin :: "url_ctor \<Rightarrow> url \<Rightarrow> ServiceWorkerVersion \<Rightarrow> error + bool" where
  "sameOrigin newURL pageUrl v =
     (case newURL (scriptURL v) of
        None \<Rightarrow> Inl TypeError
      | Some u \<Rightarrow> Inr (origin u = origin pageUrl))"

definition getVersionsForOrigin ::
  "url_ctor \<Rightarrow> ServiceWorkerVersion list \<Rightarrow> url \<Rightarrow> error + ServiceWorkerVersion list" where
  "getVersionsForOrigin newURL versions_in pageUrl =
     filter_throwing (sameOrigin newURL pageUrl)
       (filter (\<lambda>v. status v = ''activated'') versions_in)"

text \<open>
  The \<open>for\<close> loop that fills \<open>scriptByScopeUrlList\<close>: one entry for each version that
  has a registration, in the order of the versions. \<open>find\<close> is
  \<open>Array.prototype.find\<close>: the first element that satisfies the test.
\<close>

fun scriptByScopeUrlList ::
  "url_ctor \<Rightarrow> ServiceWorkerVersion list \<Rightarrow> ServiceWorkerRegistration list
    \<Rightarrow> error + ScopeMatch list" where
  "scriptByScopeUrlList newURL [] regs = Inr []"
| "scriptByScopeUrlList newURL (version # rest) regs =
     (case find (\<lambda>r. regId r = registrationId version) regs of
        None \<Rightarrow> scriptByScopeUrlList newURL rest regs
      | Some matchedRegistration \<Rightarrow>
          (case newURL (scopeURL matchedRegistration) of
             None \<Rightarrow> Inl TypeError
           | Some scope \<Rightarrow>
               (case newURL (scriptURL version) of
                  None \<Rightarrow> Inl TypeError
                | Some script \<Rightarrow>
                    (case scriptByScopeUrlList newURL rest regs of
                       Inl e \<Rightarrow> Inl e
                     | Inr l \<Rightarrow>
                         Inr (\<lparr>scopeUrl = href scope, scriptUrl = href script\<rparr> # l)))))"

text \<open>\<open>Array.prototype.pop\<close>: the last element, \<open>undefined\<close> on an empty array.\<close>

definition pop :: "'a list \<Rightarrow> 'a option" where
  "pop xs = (if xs = [] then None else Some (last xs))"

text \<open>
  \<open>filter\<close>, \<open>sort\<close> with the comparator \<open>ssA.scopeUrl.length - ssB.scopeUrl.length\<close>,
  \<open>pop\<close>. \<open>Array.prototype.sort\<close> is stable (ECMAScript 2019), and so is \<open>sort_key\<close>.
\<close>

definition getControllingServiceWorker ::
  "url_ctor \<Rightarrow> ServiceWorkerVersion list \<Rightarrow> ServiceWorkerRegistration list \<Rightarrow> url
    \<Rightarrow> error + ScopeMatch option" where
  "getControllingServiceWorker newURL matchingSWVersions regs pageUrl =
     (case scriptByScopeUrlList newURL matchingSWVersions regs of
        Inl e \<Rightarrow> Inl e
      | Inr l \<Rightarrow>
          Inr (pop (sort_key (\<lambda>ss. length (scopeUrl ss))
                 (filter (\<lambda>ss. prefix (scopeUrl ss) (href pageUrl)) l))))"

definition checkStartUrl :: "WebAppManifestArtifact option \<Rightarrow> string \<Rightarrow> IcuMessage option" where
  "checkStartUrl manifest scope =
     (case manifest of
        None \<Rightarrow> Some explanationNoManifest
      | Some m \<Rightarrow>
          (case manifest_value m of
             None \<Rightarrow> Some explanationBadManifest
           | Some parsed \<Rightarrow>
               (let startUrl = prop_value (start_url parsed)
                in if \<not> prefix scope startUrl
                   then Some (explanationBadStartUrl startUrl scope)
                   else None)))"

definition audit :: "url_ctor \<Rightarrow> Artifacts \<Rightarrow> error + Product" where
  "audit newURL artifacts =
     (case newURL (finalUrl (URL artifacts)) of
        None \<Rightarrow> Inl TypeError
      | Some pageUrl \<Rightarrow>
          (case getVersionsForOrigin newURL (versions (ServiceWorker artifacts)) pageUrl of
             Inl e \<Rightarrow> Inl e
           | Inr versionsForOrigin \<Rightarrow>
               if length versionsForOrigin = 0
               then Inr \<lparr>score = 0, explanation = None, details = None\<rparr>
               else
                 (case getControllingServiceWorker newURL versionsForOrigin
                         (registrations (ServiceWorker artifacts)) pageUrl of
                    Inl e \<Rightarrow> Inl e
                  | Inr None \<Rightarrow>
                      Inr \<lparr>score = 0,
                           explanation = Some (explanationOutOfScope (href pageUrl)),
                           details = None\<rparr>
                  | Inr (Some serviceWorkerUrls) \<Rightarrow>
                      (let d = \<lparr>scopeUrl = scopeUrl serviceWorkerUrls,
                                scriptUrl = scriptUrl serviceWorkerUrls,
                                dtype = ''debugdata''\<rparr>
                       in case checkStartUrl (WebAppManifest artifacts)
                                 (scopeUrl serviceWorkerUrls) of
                            Some startUrlFailure \<Rightarrow>
                              Inr \<lparr>score = 0, explanation = Some startUrlFailure,
                                   details = Some d\<rparr>
                          | None \<Rightarrow>
                              Inr \<lparr>score = 1, explanation = None, details = Some d\<rparr>))))"

section \<open>Notions of the specification\<close>

text \<open>The six outcomes of the specification's taxonomy, and the outcome a product shows:
  its score, the template of its explanation and whether it carries details.\<close>

datatype Outcome =
    NoWorkerForOrigin
  | PageOutOfScope
  | ManifestMissing
  | ManifestInvalid
  | StartUrlOutOfScope
  | Pass

definition outcome_of :: "Product \<Rightarrow> Outcome option" where
  "outcome_of p =
     (if score p = 1 then
        (if explanation p = None \<and> details p \<noteq> None then Some Pass else None)
      else if score p = 0 then
        (case explanation p of
           None \<Rightarrow> (if details p = None then Some NoWorkerForOrigin else None)
         | Some (explanationOutOfScope u) \<Rightarrow>
             (if details p = None then Some PageOutOfScope else None)
         | Some explanationNoManifest \<Rightarrow>
             (if details p \<noteq> None then Some ManifestMissing else None)
         | Some explanationBadManifest \<Rightarrow>
             (if details p \<noteq> None then Some ManifestInvalid else None)
         | Some (explanationBadStartUrl st sc) \<Rightarrow>
             (if details p \<noteq> None then Some StartUrlOutOfScope else None))
      else None)"

text \<open>A string is normalized when it is the \<open>href\<close> of a URL the constructor has built.\<close>

definition is_href :: "url_ctor \<Rightarrow> string \<Rightarrow> bool" where
  "is_href newURL s \<longleftrightarrow> (\<exists>raw u. newURL raw = Some u \<and> href u = s)"

text \<open>
  Modelled from the spec: the \<open>URL\<close> class of \<open>lib/url-shim.js\<close> is missing. The
  specification says of its normalization that it ``is a fixed point'': the \<open>href\<close> of
  a constructed URL is itself accepted by the constructor and has itself as \<open>href\<close>.
\<close>

definition normalization_fixed_point :: "url_ctor \<Rightarrow> bool" where
  "normalization_fixed_point newURL \<longleftrightarrow>
     (\<forall>s u. newURL s = Some u \<longrightarrow> map_option href (newURL (href u)) = Some (href u))"

text \<open>
  Every string from which the audit constructs a URL on this input is accepted by the
  constructor: the final URL, the script URL of each activated version and, for each
  activated version of the page's origin, the scope URL of the first registration with its
  id.
\<close>

definition urls_accepted :: "url_ctor \<Rightarrow> Artifacts \<Rightarrow> bool" where
  "urls_accepted newURL a \<longleftrightarrow>
     (case newURL (finalUrl (URL a)) of
        None \<Rightarrow> False
      | Some pageUrl \<Rightarrow>
          (\<forall>v\<in>set (versions (ServiceWorker a)).
             status v = ''activated'' \<longrightarrow>
               (case newURL (scriptURL v) of
                  None \<Rightarrow> False
                | Some script \<Rightarrow>
                    origin script = origin pageUrl \<longrightarrow>
                      (case find (\<lambda>r. regId r = registrationId v)
                              (registrations (ServiceWorker a)) of
                         None \<Rightarrow> True
                       | Some r \<Rightarrow> newURL (scopeURL r) \<noteq> None))))"

text \<open>Two inputs that differ only in how their URLs are written: entry by entry the same
  status and ids, and strings from which the constructor builds the same URL.\<close>

definition sameVersionUrl ::
  "url_ctor \<Rightarrow> ServiceWorkerVersion \<Rightarrow> ServiceWorkerVersion \<Rightarrow> bool" where
  "sameVersionUrl newURL v w \<longleftrightarrow>
     status v = status w \<and> registrationId v = registrationId w
     \<and> newURL (scriptURL v) = newURL (scriptURL w)"

definition sameRegistrationUrl ::
  "url_ctor \<Rightarrow> ServiceWorkerRegistration \<Rightarrow> ServiceWorkerRegistration \<Rightarrow> bool" where
  "sameRegistrationUrl newURL r s \<longleftrightarrow>
     regId r = regId s \<and> newURL (scopeURL r) = newURL (scopeURL s)"

definition sameUrls :: "url_ctor \<Rightarrow> Artifacts \<Rightarrow> Artifacts \<Rightarrow> bool" where
  "sameUrls newURL a b \<longleftrightarrow>
     newURL (finalUrl (URL a)) = newURL (finalUrl (URL b))
     \<and> list_all2 (sameVersionUrl newURL)
          (versions (ServiceWorker a)) (versions (ServiceWorker b))
     \<and> list_all2 (sameRegistrationUrl newURL)
          (registrations (ServiceWorker a)) (registrations (ServiceWorker b))
     \<and> WebAppManifest a = WebAppManifest b"

section \<open>Sample inputs\<close>

text \<open>
  A finite fragment of the URL constructor, for the concrete evaluations below. On each
  string it accepts it gives the \<open>href\<close> and \<open>origin\<close> of the URL Standard; the default
  port \<open>443\<close> of \<open>https\<close> is dropped from both. It rejects every other string; of
  those the evaluations use only the empty string, which the URL constructor rejects too.
\<close>

definition sampleURL :: url_ctor where
  "sampleURL s =
     (if s = ''https://example.com/'' \<or> s = ''https://example.com/app/''
         \<or> s = ''https://example.com/app/page'' \<or> s = ''https://example.com/other/''
         \<or> s = ''https://example.com/sw.js'' \<or> s = ''https://example.com/app/sw.js''
      then Some \<lparr>href = s, origin = ''https://example.com''\<rparr>
      else if s = ''https://example.com:443/app/''
      then Some \<lparr>href = ''https://example.com/app/'', origin = ''https://example.com''\<rparr>
      else if s = ''https://other.example/sw.js''
      then Some \<lparr>href = s, origin = ''https://other.example''\<rparr>
      else None)"

definition mkVersion :: "string \<Rightarrow> string \<Rightarrow> string \<Rightarrow> ServiceWorkerVersion" where
  "mkVersion st script rid = \<lparr>status = st, scriptURL = script, registrationId = rid\<rparr>"

definition mkRegistration :: "string \<Rightarrow> string \<Rightarrow> ServiceWorkerRegistration" where
  "mkRegistration rid scope = \<lparr>regId = rid, scopeURL = scope\<rparr>"

definition mkMatch :: "string \<Rightarrow> string \<Rightarrow> ScopeMatch" where
  "mkMatch scope script = \<lparr>scopeUrl = scope, scriptUrl = script\<rparr>"

definition mkDetails :: "string \<Rightarrow> string \<Rightarrow> DebugData" where
  "mkDetails scope script = \<lparr>scopeUrl = scope, scriptUrl = script, dtype = ''debugdata''\<rparr>"

definition mkManifest :: "string \<Rightarrow> WebAppManifestArtifact option" where
  "mkManifest s = Some \<lparr>manifest_value = Some \<lparr>start_url = \<lparr>prop_value = s\<rparr>\<rparr>\<rparr>"

definition mkArtifacts ::
  "string \<Rightarrow> ServiceWorkerVersion list \<Rightarrow> ServiceWorkerRegistration list
    \<Rightarrow> WebAppManifestArtifact option \<Rightarrow> Artifacts" where
  "mkArtifacts page vs regs m =
     \<lparr>URL = \<lparr>finalUrl = page\<rparr>,
      ServiceWorker = \<lparr>versions = vs, registrations = regs\<rparr>,
      WebAppManifest = m\<rparr>"

definition samplePage :: url where
  "samplePage = \<lparr>href = ''https://example.com/app/page'', origin = ''https://example.com''\<rparr>"

definition otherPage :: url where
  "otherPage = \<lparr>href = ''https://example.com/other/'', origin = ''https://example.com''\<rparr>"

text \<open>Four activated versions of the page's origin. Version \<open>9\<close> has no registration;
  two registrations have the id \<open>1\<close>; the scopes of \<open>2\<close> and \<open>3\<close> have the same
  \<open>href\<close>.\<close>

definition sampleVersions :: "ServiceWorkerVersion list" where
  "sampleVersions =
     [mkVersion ''activated'' ''https://example.com/sw.js'' ''1'',
      mkVersion ''activated'' ''https://example.com/app/sw.js'' ''2'',
      mkVersion ''activated'' ''https://example.com/sw.js'' ''3'',
      mkVersion ''activated'' ''https://example.com/sw.js'' ''9'']"

definition sampleRegistrations :: "ServiceWorkerRegistration list" where
  "sampleRegistrations =
     [mkRegistration ''1'' ''https://example.com/'',
      mkRegistration ''2'' ''https://example.com/app/'',
      mkRegistration ''3'' ''https://example.com:443/app/'',
      mkRegistration ''1'' ''https://example.com/other/'']"

definition sampleCandidates :: "ScopeMatch list" where
  "sampleCandidates =
     [mkMatch ''https://example.com/'' ''https://example.com/sw.js'',
      mkMatch ''https://example.com/app/'' ''https://example.com/app/sw.js'',
      mkMatch ''https://example.com/app/'' ''https://example.com/sw.js'']"

definition sampleControlling :: ScopeMatch where
  "sampleControlling = mkMatch ''https://example.com/app/'' ''https://example.com/sw.js''"

definition sampleDetails :: DebugData where
  "sampleDetails = mkDetails ''https://example.com/app/'' ''https://example.com/sw.js''"

definition sampleArtifacts :: "WebAppManifestArtifact option \<Rightarrow> Artifacts" where
  "sampleArtifacts m =
     mkArtifacts ''https://example.com/app/page'' sampleVersions sampleRegistrations m"

definition noWorkerArtifacts :: "string \<Rightarrow> Artifacts" where
  "noWorkerArtifacts page = mkArtifacts page [] [] None"

text \<open>One activated version whose registration's scope is \<open>/app/\<close>, seen from a page outside
  that scope.\<close>

definition outOfScopeArtifacts :: Artifacts where
  "outOfScopeArtifacts =
     mkArtifacts ''https://example.com/other/''
       [mkVersion ''activated'' ''https://example.com/app/sw.js'' ''2'']
       sampleRegistrations None"

text \<open>One activated version whose script URL is the empty string.\<close>

definition badScriptArtifacts :: Artifacts where
  "badScriptArtifacts =
     mkArtifacts ''https://example.com/'' [mkVersion ''activated'' [] ''1''] [] None"

text \<open>One activated version of the page's origin whose registration has the empty string
  as scope URL.\<close>

definition badScopeArtifacts :: Artifacts where
  "badScopeArtifacts =
     mkArtifacts ''https://example.com/app/page''
       [mkVersion ''activated'' ''https://example.com/sw.js'' ''1'']
       [mkRegistration ''1'' []] None"

text \<open>The sample registrations with the two writings of the \<open>/app/\<close> scope exchanged.\<close>

definition variantRegistrations :: "ServiceWorkerRegistration list" where
  "variantRegistrations =
     [mkRegistration ''1'' ''https://example.com/'',
      mkRegistration ''2'' ''https://example.com:443/app/'',
      mkRegistration ''3'' ''https://example.com/app/'',
      mkRegistration ''1'' ''https://example.com/other/'']"

definition variantArtifacts :: "WebAppManifestArtifact option \<Rightarrow> Artifacts" where
  "variantArtifacts m =
     mkArtifacts ''https://example.com/app/page'' sampleVersions variantRegistrations m"

lemmas sample_defs =
  sampleURL_def mkVersion_def mkRegistration_def mkMatch_def mkDetails_def mkManifest_def
  mkArtifacts_def samplePage_def otherPage_def sampleVersions_def sampleRegistrations_def
  sampleCandidates_def sampleControlling_def sampleDetails_def

section \<open>The origin filter\<close>

lemma filter_throwing_Inr:
  "filter_throwing f xs = Inr out \<Longrightarrow> out = filter (\<lambda>x. f x = Inr True) xs"
proof (induction xs arbitrary: out)
  case Nil
  then show ?case by simp
next
  case (Cons x xs)
  then show ?case
    by (auto split: sum.splits if_splits)
qed

lemma filter_throwing_total:
  "(\<forall>x\<in>set xs. \<exists>b. f x = Inr b) \<Longrightarrow> \<exists>out. filter_throwing f xs = Inr out"
proof (induction xs)
  case Nil
  then show ?case by simp
next
  case (Cons x xs)
  then obtain b out where "f x = Inr b" "filter_throwing f xs = Inr out"
    by auto
  then show ?case by simp
qed

lemma sameOrigin_True:
  "sameOrigin newURL pageUrl v = Inr True
    \<longleftrightarrow> map_option origin (newURL (scriptURL v)) = Some (origin pageUrl)"
  by (auto simp: sameOrigin_def split: option.splits)

lemma getVersionsForOrigin_Inr:
  assumes "getVersionsForOrigin newURL vs pageUrl = Inr out"
  shows "out = filter (\<lambda>v. status v = ''activated''
            \<and> map_option origin (newURL (scriptURL v)) = Some (origin pageUrl)) vs"
proof -
  have "out = filter (\<lambda>v. sameOrigin newURL pageUrl v = Inr True)
                (filter (\<lambda>v. status v = ''activated'') vs)"
    using assms unfolding getVersionsForOrigin_def by (rule filter_throwing_Inr)
  then show ?thesis
    by (simp add: sameOrigin_True conj_commute)
qed

lemma getVersionsForOrigin_total:
  assumes "\<forall>v\<in>set vs. status v = ''activated'' \<longrightarrow> newURL (scriptURL v) \<noteq> None"
  shows "\<exists>out. getVersionsForOrigin newURL vs pageUrl = Inr out"
proof -
  have "\<forall>v\<in>set (filter (\<lambda>v. status v = ''activated'') vs).
          \<exists>b. sameOrigin newURL pageUrl v = Inr b"
    using assms by (auto simp: sameOrigin_def split: option.splits)
  then show ?thesis
    unfolding getVersionsForOrigin_def by (rule filter_throwing_total)
qed

lemma getVersionsForOrigin_same_origin:
  assumes "origin p = origin q"
  shows "getVersionsForOrigin newURL vs p = getVersionsForOrigin newURL vs q"
proof -
  have "sameOrigin newURL p = sameOrigin newURL q"
    using assms by (auto simp: sameOrigin_def fun_eq_iff split: option.splits)
  then show ?thesis by (simp add: getVersionsForOrigin_def)
qed

lemma error_is_TypeError: "(e::error) = TypeError"
  by (cases e) simp

lemma filter_throwing_Inr_all:
  "filter_throwing f xs = Inr out \<Longrightarrow> \<forall>x\<in>set xs. \<exists>b. f x = Inr b"
proof (induction xs arbitrary: out)
  case Nil
  then show ?case by simp
next
  case (Cons x xs)
  then show ?case
    by (auto split: sum.splits)
qed

lemma getVersionsForOrigin_throws:
  assumes "v \<in> set vs" and "status v = ''activated''" and "newURL (scriptURL v) = None"
  shows "getVersionsForOrigin newURL vs pageUrl = Inl TypeError"
proof (cases "getVersionsForOrigin newURL vs pageUrl")
  case (Inl e)
  then show ?thesis by (simp add: error_is_TypeError [of e])
next
  case (Inr out)
  from filter_throwing_Inr_all [OF Inr [unfolded getVersionsForOrigin_def]] assms(1,2)
  obtain b where "sameOrigin newURL pageUrl v = Inr b"
    by auto
  with assms(3) show ?thesis
    by (simp add: sameOrigin_def)
qed

lemma filter_throwing_rel:
  assumes "list_all2 (\<lambda>x y. f x = g y \<and> R x y) xs ys"
  shows "rel_sum (=) (list_all2 R) (filter_throwing f xs) (filter_throwing g ys)"
  using assms
proof (induction rule: list_all2_induct)
  case Nil
  then show ?case by simp
next
  case (Cons x xs y ys)
  then show ?case
    by (cases "g y"; cases "filter_throwing f xs"; cases "filter_throwing g ys") auto
qed

lemma list_all2_filter_same:
  assumes "list_all2 R xs ys" and "\<And>x y. R x y \<Longrightarrow> P x = Q y"
  shows "list_all2 R (filter P xs) (filter Q ys)"
  using assms(1)
proof (induction rule: list_all2_induct)
  case Nil
  then show ?case by simp
next
  case (Cons x xs y ys)
  with assms(2) [of x y] show ?case by auto
qed

lemma getVersionsForOrigin_rel:
  assumes "list_all2 (sameVersionUrl newURL) vs ws"
  shows "rel_sum (=) (list_all2 (sameVersionUrl newURL))
           (getVersionsForOrigin newURL vs pageUrl) (getVersionsForOrigin newURL ws pageUrl)"
proof -
  have "list_all2 (sameVersionUrl newURL)
          (filter (\<lambda>v. status v = ''activated'') vs) (filter (\<lambda>v. status v = ''activated'') ws)"
    using assms by (rule list_all2_filter_same) (simp add: sameVersionUrl_def)
  then have "list_all2 (\<lambda>v w. sameOrigin newURL pageUrl v = sameOrigin newURL pageUrl w
                \<and> sameVersionUrl newURL v w)
          (filter (\<lambda>v. status v = ''activated'') vs) (filter (\<lambda>v. status v = ''activated'') ws)"
    by (rule list_all2_mono) (simp add: sameVersionUrl_def sameOrigin_def)
  then show ?thesis
    unfolding getVersionsForOrigin_def by (rule filter_throwing_rel)
qed

lemma sample_page: "sampleURL ''https://example.com/app/page'' = Some samplePage"
  by (simp add: sampleURL_def samplePage_def)

lemma other_page: "sampleURL ''https://example.com/other/'' = Some otherPage"
  by (simp add: sampleURL_def otherPage_def)

lemma sample_filter:
  "getVersionsForOrigin sampleURL sampleVersions samplePage = Inr sampleVersions"
  by (simp add: getVersionsForOrigin_def sameOrigin_def sample_defs)

text \<open>
  C6, as the filter has it. The filter constructs a URL from the script URL of every
  activated version and does not catch the constructor's throw: on one activated version
  whose script URL is the empty string it has no output.
\<close>

theorem getVersionsForOrigin_throws_counterexample:
  "getVersionsForOrigin sampleURL [mkVersion ''activated'' [] ''1''] samplePage
     = Inl TypeError"
  by (simp add: getVersionsForOrigin_def sameOrigin_def mkVersion_def sampleURL_def)

text \<open>
  C6, amended. When the script URL of every activated version is a URL, the origin filter
  returns, and its output is the input with exactly those versions kept whose status is
  \<open>activated\<close> and whose script URL has the origin of the page, in the order of the
  input; so it is a subsequence of the input and no longer than it. On every other input
  the filter throws the \<open>TypeError\<close>.
\<close>

theorem getVersionsForOrigin_subsequence:
  "(if \<forall>v\<in>set vs. status v = ''activated'' \<longrightarrow> newURL (scriptURL v) \<noteq> None
    then \<exists>out. getVersionsForOrigin newURL vs pageUrl = Inr out
           \<and> out = filter (\<lambda>v. status v = ''activated''
                 \<and> map_option origin (newURL (scriptURL v)) = Some (origin pageUrl)) vs
           \<and> subseq out vs \<and> length out \<le> length vs
    else getVersionsForOrigin newURL vs pageUrl = Inl TypeError)"
proof (cases "\<forall>v\<in>set vs. status v = ''activated'' \<longrightarrow> newURL (scriptURL v) \<noteq> None")
  case True
  from getVersionsForOrigin_total [OF True]
  obtain out where out: "getVersionsForOrigin newURL vs pageUrl = Inr out"
    by blast
  from getVersionsForOrigin_Inr [OF out]
  have eq: "out = filter (\<lambda>v. status v = ''activated''
            \<and> map_option origin (newURL (scriptURL v)) = Some (origin pageUrl)) vs" .
  have "subseq out vs" unfolding eq by (rule subseq_filter_left)
  moreover have "length out \<le> length vs" unfolding eq by (rule length_filter_le)
  ultimately have ex: "\<exists>out. getVersionsForOrigin newURL vs pageUrl = Inr out
           \<and> out = filter (\<lambda>v. status v = ''activated''
                 \<and> map_option origin (newURL (scriptURL v)) = Some (origin pageUrl)) vs
           \<and> subseq out vs \<and> length out \<le> length vs"
    using out eq by blast
  show ?thesis by (subst if_P [OF True]) (rule ex)
next
  case False
  then obtain v where "v \<in> set vs" "status v = ''activated''" "newURL (scriptURL v) = None"
    by auto
  then have thr: "getVersionsForOrigin newURL vs pageUrl = Inl TypeError"
    by (rule getVersionsForOrigin_throws)
  show ?thesis by (subst if_not_P [OF False]) (rule thr)
qed

theorem getVersionsForOrigin_subsequence_witness:
  "getVersionsForOrigin sampleURL
     [mkVersion ''activated'' ''https://example.com/sw.js'' ''1'',
      mkVersion ''redundant'' [] ''2'',
      mkVersion ''activated'' ''https://other.example/sw.js'' ''3'',
      mkVersion ''activated'' ''https://example.com/app/sw.js'' ''4'']
     samplePage
   = Inr [mkVersion ''activated'' ''https://example.com/sw.js'' ''1'',
          mkVersion ''activated'' ''https://example.com/app/sw.js'' ''4'']"
  using getVersionsForOrigin_subsequence [of
     "[mkVersion ''activated'' ''https://example.com/sw.js'' ''1'',
       mkVersion ''redundant'' [] ''2'',
       mkVersion ''activated'' ''https://other.example/sw.js'' ''3'',
       mkVersion ''activated'' ''https://example.com/app/sw.js'' ''4'']"
     sampleURL samplePage]
  by (simp add: mkVersion_def sampleURL_def samplePage_def)

section \<open>The controlling-scope resolver\<close>

subsection \<open>The join of versions and registrations\<close>


lemma scriptByScopeUrlList_total:
  assumes "\<forall>v\<in>set vs. newURL (scriptURL v) \<noteq> None"
    and "\<forall>r\<in>set regs. newURL (scopeURL r) \<noteq> None"
  shows "\<exists>l. scriptByScopeUrlList newURL vs regs = Inr l"
  using assms(1)
proof (induction vs)
  case Nil
  then show ?case by simp
next
  case (Cons v vs)
  then obtain l where l: "scriptByScopeUrlList newURL vs regs = Inr l"
    by auto
  from Cons.prems obtain script where script: "newURL (scriptURL v) = Some script"
    by auto
  show ?case
  proof (cases "find (\<lambda>r. regId r = registrationId v) regs")
    case None
    with l show ?thesis by simp
  next
    case (Some r)
    then have "r \<in> set regs"
      by (auto simp: find_Some_iff)
    with assms(2) obtain scope where "newURL (scopeURL r) = Some scope"
      by auto
    with Some l script show ?thesis by simp
  qed
qed

text \<open>Every scope in the candidate list is the \<open>href\<close> of a registration's scope URL.\<close>

lemma scriptByScopeUrlList_href:
  assumes "scriptByScopeUrlList newURL vs regs = Inr l" and "ss \<in> set l"
  shows "\<exists>r\<in>set regs. \<exists>u. newURL (scopeURL r) = Some u \<and> scopeUrl ss = href u"
  using assms
proof (induction vs arbitrary: l)
  case Nil
  then show ?case by simp
next
  case (Cons v vs)
  show ?case
  proof (cases "find (\<lambda>r. regId r = registrationId v) regs")
    case None
    with Cons show ?thesis by simp
  next
    case (Some r)
    then have r: "r \<in> set regs"
      by (auto simp: find_Some_iff)
    from Cons.prems(1) Some obtain scope script l' where
      "newURL (scopeURL r) = Some scope" "newURL (scriptURL v) = Some script"
      "scriptByScopeUrlList newURL vs regs = Inr l'"
      "l = \<lparr>scopeUrl = href scope, scriptUrl = href script\<rparr> # l'"
      by (auto split: option.splits sum.splits)
    note parts = this
    show ?thesis
    proof (cases "ss \<in> set l'")
      case True
      from Cons.IH [OF parts(3) True] show ?thesis .
    next
      case False
      with Cons.prems(2) parts(4) have "scopeUrl ss = href scope"
        by auto
      with r parts(1) show ?thesis by blast
    qed
  qed
qed

lemma scriptByScopeUrlList_matched_total:
  assumes "\<forall>v\<in>set vs. newURL (scriptURL v) \<noteq> None
             \<and> (case find (\<lambda>r. regId r = registrationId v) regs of
                  None \<Rightarrow> True | Some r \<Rightarrow> newURL (scopeURL r) \<noteq> None)"
  shows "\<exists>l. scriptByScopeUrlList newURL vs regs = Inr l"
  using assms
proof (induction vs)
  case Nil
  then show ?case by simp
next
  case (Cons v vs)
  then obtain l where l: "scriptByScopeUrlList newURL vs regs = Inr l"
    by auto
  from Cons.prems obtain script where script: "newURL (scriptURL v) = Some script"
    by auto
  show ?case
  proof (cases "find (\<lambda>r. regId r = registrationId v) regs")
    case None
    with l show ?thesis by simp
  next
    case (Some r)
    with Cons.prems obtain scope where "newURL (scopeURL r) = Some scope"
      by auto
    with Some l script show ?thesis by simp
  qed
qed

lemma scriptByScopeUrlList_throws:
  assumes "v \<in> set vs" and "find (\<lambda>r. regId r = registrationId v) regs = Some r"
    and "newURL (scopeURL r) = None"
  shows "scriptByScopeUrlList newURL vs regs = Inl TypeError"
  using assms(1)
proof (induction vs)
  case Nil
  then show ?case by simp
next
  case (Cons x xs)
  show ?case
  proof (cases "x = v")
    case True
    with assms(2,3) show ?thesis by simp
  next
    case False
    with Cons have "scriptByScopeUrlList newURL xs regs = Inl TypeError"
      by simp
    then show ?thesis
      by (simp add: error_is_TypeError split: option.splits)
  qed
qed

lemma find_registration_rel:
  assumes "list_all2 (sameRegistrationUrl newURL) regs regs'"
  shows "rel_option (sameRegistrationUrl newURL)
           (find (\<lambda>r. regId r = k) regs) (find (\<lambda>r. regId r = k) regs')"
  using assms
  by (induction rule: list_all2_induct) (auto simp: sameRegistrationUrl_def)

lemma scriptByScopeUrlList_same:
  assumes "list_all2 (sameVersionUrl newURL) vs ws"
    and "list_all2 (sameRegistrationUrl newURL) regs regs'"
  shows "scriptByScopeUrlList newURL vs regs = scriptByScopeUrlList newURL ws regs'"
  using assms(1)
proof (induction rule: list_all2_induct)
  case Nil
  then show ?case by simp
next
  case (Cons v vs w ws)
  from Cons.hyps(1) have vw: "registrationId v = registrationId w"
    "newURL (scriptURL v) = newURL (scriptURL w)"
    by (simp_all add: sameVersionUrl_def)
  from find_registration_rel [OF assms(2), of "registrationId w"]
  have "rel_option (sameRegistrationUrl newURL)
          (find (\<lambda>r. regId r = registrationId w) regs)
          (find (\<lambda>r. regId r = registrationId w) regs')" .
  then show ?case
    using Cons.IH vw
    by (cases "find (\<lambda>r. regId r = registrationId w) regs";
        cases "find (\<lambda>r. regId r = registrationId w) regs'")
       (auto simp: sameRegistrationUrl_def split: option.splits sum.splits)
qed

lemma sample_candidates:
  "scriptByScopeUrlList sampleURL sampleVersions sampleRegistrations = Inr sampleCandidates"
  by (simp add: sample_defs)



subsection \<open>The most specific scope\<close>

text \<open>Where the stable sort puts its last element: the new element goes to the end only
  when its key is greater than every key already there.\<close>

lemma last_insort_key:
  fixes f :: "'a \<Rightarrow> nat"
  shows "last (insort_key f x ys) = (if \<forall>y\<in>set ys. f y < f x then x else last ys)"
  by (induction ys) auto

lemma last_sort_key:
  fixes f :: "'a \<Rightarrow> nat"
  assumes "xs \<noteq> []"
  shows "last (sort_key f xs) \<in> set xs
       \<and> (\<forall>m\<in>set xs. f m \<le> f (last (sort_key f xs)))
       \<and> last (sort_key f xs) = last (filter (\<lambda>m. f m = f (last (sort_key f xs))) xs)"
  using assms
proof (induction xs)
  case Nil
  then show ?case by simp
next
  case (Cons x xs)
  show ?case
  proof (cases "xs = []")
    case True
    then show ?thesis by simp
  next
    case False
    let ?w = "last (sort_key f xs)"
    from Cons.IH [OF False]
    have w_in: "?w \<in> set xs" and w_max: "\<forall>m\<in>set xs. f m \<le> f ?w"
      and w_last: "?w = last (filter (\<lambda>m. f m = f ?w) xs)"
      by blast+
    have step: "last (sort_key f (x # xs)) = (if \<forall>y\<in>set xs. f y < f x then x else ?w)"
      by (simp add: last_insort_key)
    show ?thesis
    proof (cases "\<forall>y\<in>set xs. f y < f x")
      case True
      then have "filter (\<lambda>m. f m = f x) xs = []"
        by (auto simp: filter_empty_conv)
      with True step show ?thesis
        by (auto simp: less_imp_le)
    next
      case bigger: False
      then have wx: "last (sort_key f (x # xs)) = ?w"
        unfolding step by (rule if_not_P)
      from bigger w_max have "f x \<le> f ?w"
        by (meson le_trans not_le_imp_less)
      moreover have ne: "filter (\<lambda>m. f m = f ?w) xs \<noteq> []"
        using w_in by (auto simp: filter_empty_conv)
      ultimately show ?thesis
        unfolding wx using w_in w_max w_last ne by auto
    qed
  qed
qed

lemma getControllingServiceWorker_Some_in:
  assumes "getControllingServiceWorker newURL vs regs pageUrl = Inr (Some w)"
  shows "\<exists>l. scriptByScopeUrlList newURL vs regs = Inr l
           \<and> w \<in> set (filter (\<lambda>ss. prefix (scopeUrl ss) (href pageUrl)) l)"
proof -
  from assms obtain l where l: "scriptByScopeUrlList newURL vs regs = Inr l"
    by (auto simp: getControllingServiceWorker_def split: sum.splits)
  let ?ms = "filter (\<lambda>ss. prefix (scopeUrl ss) (href pageUrl)) l"
  let ?f = "\<lambda>ss::ScopeMatch. length (scopeUrl ss)"
  from assms l have ne: "?ms \<noteq> []" and w: "w = last (sort_key ?f ?ms)"
    by (auto simp: getControllingServiceWorker_def pop_def split: if_splits)
  from last_sort_key [OF ne, of ?f] w have "w \<in> set ?ms" by blast
  with l show ?thesis by blast
qed

lemma getControllingServiceWorker_same:
  assumes "list_all2 (sameVersionUrl newURL) vs ws"
    and "list_all2 (sameRegistrationUrl newURL) regs regs'"
  shows "getControllingServiceWorker newURL vs regs pageUrl
           = getControllingServiceWorker newURL ws regs' pageUrl"
  by (simp add: getControllingServiceWorker_def scriptByScopeUrlList_same [OF assms])

lemma sample_matches:
  "filter (\<lambda>ss. prefix (scopeUrl ss) (href samplePage)) sampleCandidates = sampleCandidates"
  by (simp add: sampleCandidates_def mkMatch_def samplePage_def)

lemma sample_sorted:
  "sort_key (\<lambda>ss. length (scopeUrl ss)) sampleCandidates = sampleCandidates"
  by (simp add: sampleCandidates_def mkMatch_def)

lemma sample_pop: "pop sampleCandidates = Some sampleControlling"
  by (simp add: sampleCandidates_def sampleControlling_def pop_def)

lemma sample_controlling:
  "getControllingServiceWorker sampleURL sampleVersions sampleRegistrations samplePage
     = Inr (Some sampleControlling)"
  by (simp add: getControllingServiceWorker_def sample_candidates sample_matches
        sample_sorted sample_pop)

text \<open>
  C2. When the candidate list has at least one scope that is a prefix of the page's
  \<open>href\<close>, the resolver returns one of these matches; no match has a longer scope; and
  of the matches whose scope is as long as the returned one's, it is the last in the order
  of the candidate list.
\<close>

theorem longest_scope_last_wins:
  assumes "scriptByScopeUrlList newURL vs regs = Inr l"
    and "ms = filter (\<lambda>ss. prefix (scopeUrl ss) (href pageUrl)) l"
    and "ms \<noteq> []"
  shows "\<exists>w. getControllingServiceWorker newURL vs regs pageUrl = Inr (Some w)
           \<and> w \<in> set ms
           \<and> (\<forall>m\<in>set ms. length (scopeUrl m) \<le> length (scopeUrl w))
           \<and> w = last (filter (\<lambda>m. length (scopeUrl m) = length (scopeUrl w)) ms)"
proof -
  let ?f = "\<lambda>ss::ScopeMatch. length (scopeUrl ss)"
  have "sort_key ?f ms \<noteq> []"
    using assms(3) by (metis length_sort length_0_conv)
  then have "getControllingServiceWorker newURL vs regs pageUrl
               = Inr (Some (last (sort_key ?f ms)))"
    using assms(1,2) by (simp add: getControllingServiceWorker_def pop_def)
  with last_sort_key [OF assms(3), of ?f] show ?thesis by blast
qed

theorem longest_scope_last_wins_witness:
  "scriptByScopeUrlList sampleURL sampleVersions sampleRegistrations
     = Inr [mkMatch ''https://example.com/'' ''https://example.com/sw.js'',
            mkMatch ''https://example.com/app/'' ''https://example.com/app/sw.js'',
            mkMatch ''https://example.com/app/'' ''https://example.com/sw.js'']
   \<and> getControllingServiceWorker sampleURL sampleVersions sampleRegistrations samplePage
     = Inr (Some (mkMatch ''https://example.com/app/'' ''https://example.com/sw.js''))"
proof -
  have ne: "sampleCandidates \<noteq> []"
    by (simp add: sampleCandidates_def)
  from longest_scope_last_wins [OF sample_candidates sample_matches [symmetric] ne]
  obtain w where
    "getControllingServiceWorker sampleURL sampleVersions sampleRegistrations samplePage
       = Inr (Some w)"
    by blast
  with sample_controlling sample_candidates show ?thesis
    by (simp add: sampleCandidates_def sampleControlling_def)
qed

text \<open>
  C7. Whenever the resolver returns a match, the match's \<open>scopeUrl\<close> is a prefix of the
  page URL's \<open>href\<close>.
\<close>

theorem controlling_scope_is_prefix:
  assumes "getControllingServiceWorker newURL vs regs pageUrl = Inr (Some w)"
  shows "prefix (scopeUrl w) (href pageUrl)"
  using getControllingServiceWorker_Some_in [OF assms] by auto

theorem controlling_scope_is_prefix_witness:
  "getControllingServiceWorker sampleURL sampleVersions sampleRegistrations samplePage
     = Inr (Some sampleControlling)
   \<and> prefix (scopeUrl sampleControlling) (href samplePage)"
  using controlling_scope_is_prefix [OF sample_controlling] sample_controlling by simp

text \<open>
  C9. When the URL constructor's normalization is a fixed point, every scope the resolver
  returns is one: the constructor accepts it and gives it back as \<open>href\<close>.
\<close>

theorem resolver_scope_renormalized:
  assumes "normalization_fixed_point newURL"
    and "getControllingServiceWorker newURL vs regs pageUrl = Inr (Some w)"
  shows "map_option href (newURL (scopeUrl w)) = Some (scopeUrl w)"
proof -
  from getControllingServiceWorker_Some_in [OF assms(2)] obtain l where
    "scriptByScopeUrlList newURL vs regs = Inr l" "w \<in> set l"
    by auto
  from scriptByScopeUrlList_href [OF this] obtain u s where
    "newURL s = Some u" "scopeUrl w = href u"
    by blast
  with assms(1) show ?thesis
    unfolding normalization_fixed_point_def by metis
qed

lemma sampleURL_fixed_point: "normalization_fixed_point sampleURL"
  unfolding normalization_fixed_point_def sampleURL_def
  by (auto split: if_splits)

theorem resolver_scope_renormalized_witness:
  "normalization_fixed_point sampleURL
   \<and> getControllingServiceWorker sampleURL sampleVersions sampleRegistrations samplePage
     = Inr (Some sampleControlling)
   \<and> map_option href (sampleURL ''https://example.com/app/'') = Some ''https://example.com/app/''"
  using resolver_scope_renormalized [OF sampleURL_fixed_point sample_controlling]
    sampleURL_fixed_point sample_controlling
  by (simp add: sampleControlling_def mkMatch_def)

section \<open>The start-URL validator\<close>

text \<open>
  C5. The validator returns the no-manifest message exactly when the artifact is absent,
  the bad-manifest message exactly when the artifact is there and its parsed value is
  absent, the bad-start-URL message, with the start URL and the scope, exactly when the
  parsed \<open>start_url\<close> does not begin with the scope, and nothing exactly when it does;
  it returns no other message.
\<close>

theorem checkStartUrl_cases:
  "(checkStartUrl m scope = Some explanationNoManifest \<longleftrightarrow> m = None)
   \<and> (checkStartUrl m scope = Some explanationBadManifest
        \<longleftrightarrow> (\<exists>a. m = Some a \<and> manifest_value a = None))
   \<and> (checkStartUrl m scope = Some (explanationBadStartUrl st sc)
        \<longleftrightarrow> (\<exists>a p. m = Some a \<and> manifest_value a = Some p
              \<and> st = prop_value (start_url p) \<and> sc = scope \<and> \<not> prefix scope st))
   \<and> (checkStartUrl m scope = None
        \<longleftrightarrow> (\<exists>a p. m = Some a \<and> manifest_value a = Some p
              \<and> prefix scope (prop_value (start_url p))))
   \<and> checkStartUrl m scope \<noteq> Some (explanationOutOfScope x)"
  by (auto simp: checkStartUrl_def Let_def split: option.splits)

theorem checkStartUrl_cases_witness:
  "checkStartUrl None ''https://example.com/app/'' = Some explanationNoManifest
   \<and> checkStartUrl (Some \<lparr>manifest_value = None\<rparr>) ''https://example.com/app/''
       = Some explanationBadManifest
   \<and> checkStartUrl (mkManifest ''https://example.com/outside/'') ''https://example.com/app/''
       = Some (explanationBadStartUrl ''https://example.com/outside/''
                 ''https://example.com/app/'')
   \<and> checkStartUrl (mkManifest ''https://example.com/app/page'') ''https://example.com/app/''
       = None"
  using checkStartUrl_cases [of None "''https://example.com/app/''"]
        checkStartUrl_cases [of "Some \<lparr>manifest_value = None\<rparr>" "''https://example.com/app/''"]
        checkStartUrl_cases [of "mkManifest ''https://example.com/outside/''"
          "''https://example.com/app/''" "''https://example.com/outside/''"
          "''https://example.com/app/''"]
        checkStartUrl_cases [of "mkManifest ''https://example.com/app/page''"
          "''https://example.com/app/''"]
  by (simp add: mkManifest_def)

section \<open>The audit\<close>

lemma audit_outcome:
  assumes "audit newURL a = Inr p"
  shows "\<exists>oc. outcome_of p = Some oc"
proof -
  from assms obtain pageUrl vfo where
    pu: "newURL (finalUrl (URL a)) = Some pageUrl"
    and vfo: "getVersionsForOrigin newURL (versions (ServiceWorker a)) pageUrl = Inr vfo"
    by (auto simp: audit_def split: option.splits sum.splits)
  show ?thesis
    using assms pu vfo
    by (auto simp: audit_def Let_def outcome_of_def checkStartUrl_def
             split: option.splits sum.splits if_splits)
qed

lemma audit_details:
  assumes "audit newURL a = Inr p" and "details p = Some d"
  shows "\<exists>pageUrl vfo w. newURL (finalUrl (URL a)) = Some pageUrl
           \<and> getVersionsForOrigin newURL (versions (ServiceWorker a)) pageUrl = Inr vfo
           \<and> getControllingServiceWorker newURL vfo (registrations (ServiceWorker a)) pageUrl
               = Inr (Some w)
           \<and> scopeUrl d = scopeUrl w \<and> scriptUrl d = scriptUrl w
           \<and> explanation p = checkStartUrl (WebAppManifest a) (scopeUrl w)"
  using assms
  by (auto simp: audit_def Let_def split: option.splits sum.splits if_splits)

lemma audit_no_worker_iff:
  assumes "newURL (finalUrl (URL a)) = Some pageUrl"
  shows "audit newURL a = Inr \<lparr>score = 0, explanation = None, details = None\<rparr>
     \<longleftrightarrow> getVersionsForOrigin newURL (versions (ServiceWorker a)) pageUrl = Inr []"
  using assms
  by (auto simp: audit_def Let_def split: option.splits sum.splits if_splits)

lemma audit_of_resolver:
  assumes "newURL (finalUrl (URL a)) = Some pageUrl"
    and "getVersionsForOrigin newURL (versions (ServiceWorker a)) pageUrl = Inr vfo"
    and "vfo \<noteq> []"
  shows "audit newURL a =
     (case getControllingServiceWorker newURL vfo (registrations (ServiceWorker a)) pageUrl of
        Inl e \<Rightarrow> Inl e
      | Inr r \<Rightarrow> Inr
          (case r of
             None \<Rightarrow> \<lparr>score = 0, explanation = Some (explanationOutOfScope (href pageUrl)),
                       details = None\<rparr>
           | Some sw \<Rightarrow>
               (case checkStartUrl (WebAppManifest a) (scopeUrl sw) of
                  Some msg \<Rightarrow>
                    \<lparr>score = 0, explanation = Some msg,
                     details = Some \<lparr>scopeUrl = scopeUrl sw, scriptUrl = scriptUrl sw,
                                     dtype = ''debugdata''\<rparr>\<rparr>
                | None \<Rightarrow>
                    \<lparr>score = 1, explanation = None,
                     details = Some \<lparr>scopeUrl = scopeUrl sw, scriptUrl = scriptUrl sw,
                                     dtype = ''debugdata''\<rparr>\<rparr>)))"
  using assms by (simp add: audit_def Let_def split: sum.splits option.splits)

lemma audit_same:
  assumes "sameUrls newURL a b"
  shows "audit newURL a = audit newURL b"
proof (cases "newURL (finalUrl (URL a))")
  case None
  with assms show ?thesis
    by (simp add: sameUrls_def audit_def)
next
  case (Some pageUrl)
  from assms have b: "newURL (finalUrl (URL b)) = Some pageUrl"
    and vs: "list_all2 (sameVersionUrl newURL)
               (versions (ServiceWorker a)) (versions (ServiceWorker b))"
    and regs: "list_all2 (sameRegistrationUrl newURL)
               (registrations (ServiceWorker a)) (registrations (ServiceWorker b))"
    and m: "WebAppManifest a = WebAppManifest b"
    using Some by (simp_all add: sameUrls_def)
  let ?ga = "getVersionsForOrigin newURL (versions (ServiceWorker a)) pageUrl"
  let ?gb = "getVersionsForOrigin newURL (versions (ServiceWorker b)) pageUrl"
  have rel: "rel_sum (=) (list_all2 (sameVersionUrl newURL)) ?ga ?gb"
    using vs by (rule getVersionsForOrigin_rel)
  show ?thesis
  proof (cases ?ga)
    case (Inl e)
    with rel have "?gb = Inl e"
      by (cases ?gb) auto
    with Inl Some b show ?thesis
      by (simp add: audit_def)
  next
    case (Inr vfo)
    with rel obtain vfo' where vfo': "?gb = Inr vfo'"
      and r: "list_all2 (sameVersionUrl newURL) vfo vfo'"
      by (cases ?gb) auto
    from r have len: "vfo = [] \<longleftrightarrow> vfo' = []"
      by auto
    from getControllingServiceWorker_same [OF r regs, of pageUrl]
    show ?thesis
      using Some b Inr vfo' len m
      by (simp add: audit_def Let_def split: sum.splits option.splits)
  qed
qed

lemma sample_audit_fields:
  "finalUrl (URL (sampleArtifacts m)) = ''https://example.com/app/page''"
  "versions (ServiceWorker (sampleArtifacts m)) = sampleVersions"
  "registrations (ServiceWorker (sampleArtifacts m)) = sampleRegistrations"
  "WebAppManifest (sampleArtifacts m) = m"
  by (simp_all add: sampleArtifacts_def mkArtifacts_def)

lemma sample_audit:
  "audit sampleURL (sampleArtifacts m) =
     (case checkStartUrl m ''https://example.com/app/'' of
        Some f \<Rightarrow> Inr \<lparr>score = 0, explanation = Some f, details = Some sampleDetails\<rparr>
      | None \<Rightarrow> Inr \<lparr>score = 1, explanation = None, details = Some sampleDetails\<rparr>)"
proof -
  have ne: "sampleVersions \<noteq> []" by (simp add: sampleVersions_def)
  show ?thesis
    by (simp add: audit_def sample_audit_fields sample_page sample_filter ne
          sample_controlling Let_def sampleControlling_def sampleDetails_def mkMatch_def
          mkDetails_def split: option.splits)
qed

lemma no_worker_audit:
  "audit sampleURL (noWorkerArtifacts ''https://example.com/app/page'')
     = Inr \<lparr>score = 0, explanation = None, details = None\<rparr>"
  by (simp add: audit_def getVersionsForOrigin_def noWorkerArtifacts_def mkArtifacts_def
        sample_page)

lemma out_of_scope_audit:
  "audit sampleURL outOfScopeArtifacts
     = Inr \<lparr>score = 0,
            explanation = Some (explanationOutOfScope ''https://example.com/other/''),
            details = None\<rparr>"
  by (simp add: audit_def getVersionsForOrigin_def sameOrigin_def
        getControllingServiceWorker_def pop_def outOfScopeArtifacts_def sample_defs)

lemma sample_accepted: "urls_accepted sampleURL (sampleArtifacts m)"
  by (simp add: urls_accepted_def sample_audit_fields sample_page)
     (simp add: sample_audit_fields sample_defs)

lemma no_worker_accepted:
  "urls_accepted sampleURL (noWorkerArtifacts ''https://example.com/app/page'')"
  by (simp add: urls_accepted_def noWorkerArtifacts_def mkArtifacts_def sample_page)

lemma out_of_scope_accepted: "urls_accepted sampleURL outOfScopeArtifacts"
  by (simp add: urls_accepted_def outOfScopeArtifacts_def sample_defs)

lemma variant_same: "sameUrls sampleURL (sampleArtifacts m) (variantArtifacts m)"
  by (simp add: sameUrls_def sample_audit_fields variantArtifacts_def mkArtifacts_def)
     (simp add: sameVersionUrl_def sameRegistrationUrl_def sampleVersions_def
        sampleRegistrations_def variantRegistrations_def mkVersion_def mkRegistration_def
        sampleURL_def)

text \<open>
  C1, as the audit has it. The four products are not the only ways out: the resolver
  constructs a URL from the scope URL of a matched registration, and the audit does not
  catch the constructor's throw. Here the page URL is constructed and the origin filter
  returns one version, yet the audit ends in the \<open>TypeError\<close>.
\<close>

theorem audit_resolver_throws_counterexample:
  "sampleURL (finalUrl (URL badScopeArtifacts)) = Some samplePage
   \<and> getVersionsForOrigin sampleURL (versions (ServiceWorker badScopeArtifacts)) samplePage
       = Inr [mkVersion ''activated'' ''https://example.com/sw.js'' ''1'']
   \<and> audit sampleURL badScopeArtifacts = Inl TypeError"
  by (simp add: audit_def getVersionsForOrigin_def sameOrigin_def
        getControllingServiceWorker_def badScopeArtifacts_def sample_defs)

text \<open>
  C1, amended. On every input whose URLs the constructor accepts, the audit returns one of
  four products, decided by the three stages in turn. An empty filter output gives score 0
  with no explanation and no details. Otherwise, a resolver that returns no match gives
  score 0, the out-of-scope explanation with the page URL's \<open>href\<close>, and no details.
  Otherwise, a validator that returns a message gives score 0, that message, and the
  details of the match. Otherwise the score is 1, with the details of the match and no
  explanation. On every other input the audit throws the \<open>TypeError\<close>.
\<close>

theorem audit_four_outcomes:
  "(if urls_accepted newURL a
    then \<exists>pageUrl vfo.
           newURL (finalUrl (URL a)) = Some pageUrl
           \<and> getVersionsForOrigin newURL (versions (ServiceWorker a)) pageUrl = Inr vfo
           \<and> (if vfo = []
               then audit newURL a = Inr \<lparr>score = 0, explanation = None, details = None\<rparr>
               else \<exists>r. getControllingServiceWorker newURL vfo
                           (registrations (ServiceWorker a)) pageUrl = Inr r
                      \<and> audit newURL a = Inr
                          (case r of
                             None \<Rightarrow>
                               \<lparr>score = 0,
                                explanation = Some (explanationOutOfScope (href pageUrl)),
                                details = None\<rparr>
                           | Some sw \<Rightarrow>
                               (case checkStartUrl (WebAppManifest a) (scopeUrl sw) of
                                  Some msg \<Rightarrow>
                                    \<lparr>score = 0, explanation = Some msg,
                                     details = Some \<lparr>scopeUrl = scopeUrl sw,
                                                     scriptUrl = scriptUrl sw,
                                                     dtype = ''debugdata''\<rparr>\<rparr>
                                | None \<Rightarrow>
                                    \<lparr>score = 1, explanation = None,
                                     details = Some \<lparr>scopeUrl = scopeUrl sw,
                                                     scriptUrl = scriptUrl sw,
                                                     dtype = ''debugdata''\<rparr>\<rparr>)))
    else audit newURL a = Inl TypeError)"
proof (cases "newURL (finalUrl (URL a))")
  case None
  then show ?thesis
    by (simp add: urls_accepted_def audit_def)
next
  case (Some pageUrl)
  let ?vs = "versions (ServiceWorker a)"
  let ?regs = "registrations (ServiceWorker a)"
  show ?thesis
  proof (cases "\<forall>v\<in>set ?vs. status v = ''activated'' \<longrightarrow> newURL (scriptURL v) \<noteq> None")
    case False
    then obtain v where v: "v \<in> set ?vs" "status v = ''activated''"
      "newURL (scriptURL v) = None"
      by auto
    from v have "getVersionsForOrigin newURL ?vs pageUrl = Inl TypeError"
      by (rule getVersionsForOrigin_throws)
    then have "audit newURL a = Inl TypeError"
      using Some by (simp add: audit_def)
    moreover from v Some have "\<not> urls_accepted newURL a"
      by (auto simp: urls_accepted_def)
    ultimately show ?thesis by simp
  next
    case True
    from getVersionsForOrigin_total [OF True] obtain vfo where
      vfo: "getVersionsForOrigin newURL ?vs pageUrl = Inr vfo"
      by blast
    note vfo_eq = getVersionsForOrigin_Inr [OF vfo]
    show ?thesis
    proof (cases "\<forall>v\<in>set vfo. case find (\<lambda>r. regId r = registrationId v) ?regs of
                     None \<Rightarrow> True | Some r \<Rightarrow> newURL (scopeURL r) \<noteq> None")
      case ok: True
      have acc: "urls_accepted newURL a"
        unfolding urls_accepted_def using Some True ok vfo_eq
        by (auto split: option.splits)
      have "\<forall>v\<in>set vfo. newURL (scriptURL v) \<noteq> None
             \<and> (case find (\<lambda>r. regId r = registrationId v) ?regs of
                  None \<Rightarrow> True | Some r \<Rightarrow> newURL (scopeURL r) \<noteq> None)"
        using ok True vfo_eq by auto
      from scriptByScopeUrlList_matched_total [OF this]
      obtain r where r: "getControllingServiceWorker newURL vfo ?regs pageUrl = Inr r"
        by (auto simp: getControllingServiceWorker_def)
      show ?thesis
      proof (cases "vfo = []")
        case True
        with Some vfo acc show ?thesis
          by (simp add: audit_def)
      next
        case False
        from audit_of_resolver [OF Some vfo False] r Some vfo False acc
        show ?thesis by simp
      qed
    next
      case bad: False
      then obtain v r where v: "v \<in> set vfo"
        "find (\<lambda>r. regId r = registrationId v) ?regs = Some r" "newURL (scopeURL r) = None"
        by (auto split: option.splits)
      from v have "scriptByScopeUrlList newURL vfo ?regs = Inl TypeError"
        by (rule scriptByScopeUrlList_throws)
      then have "getControllingServiceWorker newURL vfo ?regs pageUrl = Inl TypeError"
        by (simp add: getControllingServiceWorker_def)
      moreover from v(1) have "vfo \<noteq> []" by auto
      ultimately have "audit newURL a = Inl TypeError"
        using audit_of_resolver [OF Some vfo] by simp
      moreover have "\<not> urls_accepted newURL a"
        unfolding urls_accepted_def using Some v vfo_eq
        by (auto split: option.splits)
      ultimately show ?thesis by simp
    qed
  qed
qed

theorem audit_four_outcomes_witness:
  "audit sampleURL (noWorkerArtifacts ''https://example.com/app/page'')
     = Inr \<lparr>score = 0, explanation = None, details = None\<rparr>
   \<and> audit sampleURL outOfScopeArtifacts
     = Inr \<lparr>score = 0,
            explanation = Some (explanationOutOfScope ''https://example.com/other/''),
            details = None\<rparr>
   \<and> audit sampleURL (sampleArtifacts (mkManifest ''https://example.com/outside/''))
     = Inr \<lparr>score = 0,
            explanation = Some (explanationBadStartUrl ''https://example.com/outside/''
                                  ''https://example.com/app/''),
            details = Some sampleDetails\<rparr>
   \<and> audit sampleURL (sampleArtifacts (mkManifest ''https://example.com/app/''))
     = Inr \<lparr>score = 1, explanation = None, details = Some sampleDetails\<rparr>"
proof -
  have f1: "finalUrl (URL (noWorkerArtifacts page)) = page"
    "versions (ServiceWorker (noWorkerArtifacts page)) = []" for page
    by (simp_all add: noWorkerArtifacts_def mkArtifacts_def)
  have v1: "getVersionsForOrigin sampleURL [] samplePage = Inr []"
    by (simp add: getVersionsForOrigin_def)
  have f2: "finalUrl (URL outOfScopeArtifacts) = ''https://example.com/other/''"
    "versions (ServiceWorker outOfScopeArtifacts)
       = [mkVersion ''activated'' ''https://example.com/app/sw.js'' ''2'']"
    "registrations (ServiceWorker outOfScopeArtifacts) = sampleRegistrations"
    by (simp_all add: outOfScopeArtifacts_def mkArtifacts_def)
  have v2: "getVersionsForOrigin sampleURL
              [mkVersion ''activated'' ''https://example.com/app/sw.js'' ''2''] otherPage
            = Inr [mkVersion ''activated'' ''https://example.com/app/sw.js'' ''2'']"
    by (simp add: getVersionsForOrigin_def sameOrigin_def sample_defs)
  have c2: "getControllingServiceWorker sampleURL
              [mkVersion ''activated'' ''https://example.com/app/sw.js'' ''2'']
              sampleRegistrations otherPage = Inr None"
    by (simp add: getControllingServiceWorker_def pop_def sample_defs)
  have ne: "sampleVersions \<noteq> []"
    by (simp add: sampleVersions_def)
  have s3: "checkStartUrl (mkManifest ''https://example.com/outside/'')
              (scopeUrl sampleControlling)
            = Some (explanationBadStartUrl ''https://example.com/outside/''
                      ''https://example.com/app/'')"
    by (simp add: checkStartUrl_def mkManifest_def sampleControlling_def mkMatch_def)
  have s4: "checkStartUrl (mkManifest ''https://example.com/app/'')
              (scopeUrl sampleControlling) = None"
    by (simp add: checkStartUrl_def mkManifest_def sampleControlling_def mkMatch_def)
  have d: "\<lparr>scopeUrl = scopeUrl sampleControlling, scriptUrl = scriptUrl sampleControlling,
            dtype = ''debugdata''\<rparr> = sampleDetails"
    by (simp add: sampleControlling_def sampleDetails_def mkMatch_def mkDetails_def)
  from audit_four_outcomes [of sampleURL "noWorkerArtifacts ''https://example.com/app/page''"]
    no_worker_accepted
  have "audit sampleURL (noWorkerArtifacts ''https://example.com/app/page'')
     = Inr \<lparr>score = 0, explanation = None, details = None\<rparr>"
    by (simp add: f1 sample_page v1)
  moreover from audit_four_outcomes [of sampleURL outOfScopeArtifacts] out_of_scope_accepted
  have "audit sampleURL outOfScopeArtifacts
     = Inr \<lparr>score = 0,
            explanation = Some (explanationOutOfScope ''https://example.com/other/''),
            details = None\<rparr>"
    by (simp add: f2 other_page v2 c2) (simp add: otherPage_def)
  moreover from audit_four_outcomes
      [of sampleURL "sampleArtifacts (mkManifest ''https://example.com/outside/'')"]
    sample_accepted
  have "audit sampleURL (sampleArtifacts (mkManifest ''https://example.com/outside/''))
     = Inr \<lparr>score = 0,
            explanation = Some (explanationBadStartUrl ''https://example.com/outside/''
                                  ''https://example.com/app/''),
            details = Some sampleDetails\<rparr>"
    by (simp add: sample_audit_fields sample_page sample_filter ne sample_controlling s3 d)
  moreover from audit_four_outcomes
      [of sampleURL "sampleArtifacts (mkManifest ''https://example.com/app/'')"]
    sample_accepted
  have "audit sampleURL (sampleArtifacts (mkManifest ''https://example.com/app/''))
     = Inr \<lparr>score = 1, explanation = None, details = Some sampleDetails\<rparr>"
    by (simp add: sample_audit_fields sample_page sample_filter ne sample_controlling s4 d)
  ultimately show ?thesis by simp
qed

text \<open>
  C3, as the audit has it. The URL constructor throws on a string that is not a URL and the
  audit does not catch it: with one activated version whose script URL is the empty
  string, the audit ends in the \<open>TypeError\<close> and gives no product.
\<close>

theorem audit_throws_counterexample:
  "audit sampleURL badScriptArtifacts = Inl TypeError"
  by (simp add: audit_def getVersionsForOrigin_def sameOrigin_def badScriptArtifacts_def
        sample_defs)

text \<open>
  C3, amended. When the final URL, the script URL of every activated version and the scope
  URL of every registration are URLs, the audit returns a product, and the product shows
  one of the six outcomes. Reading \<open>start_url\<close> cannot fail: a parsed manifest value has
  one, by its type.
\<close>

theorem audit_total_when_urls_parse:
  assumes "newURL (finalUrl (URL a)) \<noteq> None"
    and "\<forall>v\<in>set (versions (ServiceWorker a)).
           status v = ''activated'' \<longrightarrow> newURL (scriptURL v) \<noteq> None"
    and "\<forall>r\<in>set (registrations (ServiceWorker a)). newURL (scopeURL r) \<noteq> None"
  shows "\<exists>p oc. audit newURL a = Inr p \<and> outcome_of p = Some oc"
proof -
  from assms(1) obtain pageUrl where pu: "newURL (finalUrl (URL a)) = Some pageUrl"
    by auto
  from getVersionsForOrigin_total [OF assms(2)] obtain vfo where
    vfo: "getVersionsForOrigin newURL (versions (ServiceWorker a)) pageUrl = Inr vfo"
    by blast
  from getVersionsForOrigin_Inr [OF vfo] assms(2)
  have "\<forall>v\<in>set vfo. newURL (scriptURL v) \<noteq> None"
    by auto
  from scriptByScopeUrlList_total [OF this assms(3)]
  obtain l where "scriptByScopeUrlList newURL vfo (registrations (ServiceWorker a)) = Inr l"
    by blast
  then obtain r where
    "getControllingServiceWorker newURL vfo (registrations (ServiceWorker a)) pageUrl = Inr r"
    by (simp add: getControllingServiceWorker_def)
  with pu vfo have "\<exists>p. audit newURL a = Inr p"
    by (simp add: audit_def Let_def split: option.splits)
  then obtain p where p: "audit newURL a = Inr p" ..
  with audit_outcome [OF p] show ?thesis by blast
qed

theorem audit_total_when_urls_parse_witness:
  "audit sampleURL (sampleArtifacts (mkManifest ''https://example.com/app/''))
     = Inr \<lparr>score = 1, explanation = None, details = Some sampleDetails\<rparr>
   \<and> outcome_of \<lparr>score = 1, explanation = None, details = Some sampleDetails\<rparr> = Some Pass"
proof -
  let ?a = "sampleArtifacts (mkManifest ''https://example.com/app/'')"
  have "sampleURL (finalUrl (URL ?a)) \<noteq> None"
    by (simp add: sample_audit_fields sample_page)
  moreover have "\<forall>v\<in>set (versions (ServiceWorker ?a)).
           status v = ''activated'' \<longrightarrow> sampleURL (scriptURL v) \<noteq> None"
    by (simp add: sample_audit_fields) (simp add: sample_defs)
  moreover have "\<forall>r\<in>set (registrations (ServiceWorker ?a)).
           sampleURL (scopeURL r) \<noteq> None"
    by (simp add: sample_audit_fields) (simp add: sample_defs)
  ultimately have "\<exists>p oc. audit sampleURL ?a = Inr p \<and> outcome_of p = Some oc"
    by (rule audit_total_when_urls_parse)
  then show ?thesis
    by (simp add: sample_audit checkStartUrl_def mkManifest_def outcome_of_def)
qed

text \<open>
  C4, as the audit has it. The validator compares the manifest's \<open>start_url\<close> as it is
  given. A start URL written with the default port is reported out of scope, in that
  form, though its \<open>href\<close> begins with the scope and passes when given instead.
\<close>

theorem start_url_compared_raw_counterexample:
  "audit sampleURL (sampleArtifacts (mkManifest ''https://example.com:443/app/''))
     = Inr \<lparr>score = 0,
            explanation = Some (explanationBadStartUrl ''https://example.com:443/app/''
                                  ''https://example.com/app/''),
            details = Some sampleDetails\<rparr>
   \<and> map_option href (sampleURL ''https://example.com:443/app/'')
       = Some ''https://example.com/app/''
   \<and> audit sampleURL (sampleArtifacts (mkManifest ''https://example.com/app/''))
     = Inr \<lparr>score = 1, explanation = None, details = Some sampleDetails\<rparr>"
  by (simp add: sample_audit checkStartUrl_def mkManifest_def)
     (simp add: sampleURL_def)

text \<open>
  C4, amended. The audit reads the final URL, the script URLs and the scope URLs only
  through the URLs constructed from them: the resolver, and the whole audit, give the same
  result on two inputs that differ only in how these URLs are written, so the resolver's
  prefix test has a normalized \<open>href\<close> on both sides. Whenever the audit attaches
  details, their scope is such an \<open>href\<close> and a prefix of the \<open>href\<close> of the
  constructed page URL. In the validator, as the audit calls it, the scope is that
  normalized scope, and the other side is the \<open>start_url\<close> of the manifest artifact
  as the audit received it.
\<close>

theorem compared_urls_normalized:
  "(list_all2 (sameVersionUrl newURL) vs ws \<and> list_all2 (sameRegistrationUrl newURL) regs regs'
      \<longrightarrow> getControllingServiceWorker newURL vs regs pageUrl
            = getControllingServiceWorker newURL ws regs' pageUrl)
   \<and> (sameUrls newURL a b \<longrightarrow> audit newURL a = audit newURL b)
   \<and> (audit newURL a = Inr p \<and> details p = Some d
        \<longrightarrow> (\<exists>page. newURL (finalUrl (URL a)) = Some page \<and> prefix (scopeUrl d) (href page))
            \<and> is_href newURL (scopeUrl d)
            \<and> explanation p = checkStartUrl (WebAppManifest a) (scopeUrl d))"
proof (intro conjI impI)
  assume "list_all2 (sameVersionUrl newURL) vs ws
            \<and> list_all2 (sameRegistrationUrl newURL) regs regs'"
  then show "getControllingServiceWorker newURL vs regs pageUrl
            = getControllingServiceWorker newURL ws regs' pageUrl"
    by (simp add: getControllingServiceWorker_same)
next
  assume "sameUrls newURL a b"
  then show "audit newURL a = audit newURL b"
    by (rule audit_same)
next
  assume h: "audit newURL a = Inr p \<and> details p = Some d"
  from audit_details [of newURL a p d] h obtain pu vfo w where
    pu: "newURL (finalUrl (URL a)) = Some pu"
    and w: "getControllingServiceWorker newURL vfo (registrations (ServiceWorker a)) pu
          = Inr (Some w)"
    and d: "scopeUrl d = scopeUrl w"
    and e: "explanation p = checkStartUrl (WebAppManifest a) (scopeUrl w)"
    by blast
  from getControllingServiceWorker_Some_in [OF w] obtain l' where
    l': "scriptByScopeUrlList newURL vfo (registrations (ServiceWorker a)) = Inr l'"
    "w \<in> set l'" "prefix (scopeUrl w) (href pu)"
    by auto
  from pu l'(3) d
  show "\<exists>page. newURL (finalUrl (URL a)) = Some page \<and> prefix (scopeUrl d) (href page)"
    by simp
  from scriptByScopeUrlList_href [OF l'(1,2)] d
  show "is_href newURL (scopeUrl d)"
    unfolding is_href_def by metis
  from e d show "explanation p = checkStartUrl (WebAppManifest a) (scopeUrl d)"
    by simp
qed

theorem compared_urls_normalized_witness:
  "list_all2 (sameVersionUrl sampleURL) sampleVersions sampleVersions
   \<and> list_all2 (sameRegistrationUrl sampleURL) sampleRegistrations variantRegistrations
   \<and> getControllingServiceWorker sampleURL sampleVersions variantRegistrations samplePage
       = Inr (Some sampleControlling)
   \<and> sameUrls sampleURL (sampleArtifacts (mkManifest ''https://example.com:443/app/''))
       (variantArtifacts (mkManifest ''https://example.com:443/app/''))
   \<and> audit sampleURL (variantArtifacts (mkManifest ''https://example.com:443/app/''))
       = Inr \<lparr>score = 0,
            explanation = Some (explanationBadStartUrl ''https://example.com:443/app/''
                                  ''https://example.com/app/''),
            details = Some sampleDetails\<rparr>
   \<and> prefix (scopeUrl sampleDetails) (href samplePage)
   \<and> is_href sampleURL (scopeUrl sampleDetails)"
proof -
  let ?m = "mkManifest ''https://example.com:443/app/''"
  let ?a = "sampleArtifacts ?m"
  let ?p = "\<lparr>score = 0,
            explanation = Some (explanationBadStartUrl ''https://example.com:443/app/''
                                  ''https://example.com/app/''),
            details = Some sampleDetails\<rparr>"
  have rel: "list_all2 (sameVersionUrl sampleURL) sampleVersions sampleVersions
      \<and> list_all2 (sameRegistrationUrl sampleURL) sampleRegistrations variantRegistrations"
    using variant_same [of None]
    by (simp add: sameUrls_def sample_audit_fields variantArtifacts_def mkArtifacts_def)
  have au: "audit sampleURL ?a = Inr ?p \<and> details ?p = Some sampleDetails"
    by (simp add: sample_audit checkStartUrl_def mkManifest_def)
  note t = compared_urls_normalized [where newURL = sampleURL and vs = sampleVersions
      and ws = sampleVersions and regs = sampleRegistrations and regs' = variantRegistrations
      and pageUrl = samplePage and a = ?a and b = "variantArtifacts ?m" and p = ?p
      and d = sampleDetails]
  from t rel have "getControllingServiceWorker sampleURL sampleVersions sampleRegistrations
        samplePage
      = getControllingServiceWorker sampleURL sampleVersions variantRegistrations samplePage"
    by blast
  with sample_controlling
  have c: "getControllingServiceWorker sampleURL sampleVersions variantRegistrations samplePage
       = Inr (Some sampleControlling)"
    by simp
  from t variant_same [of ?m] have "audit sampleURL ?a = audit sampleURL (variantArtifacts ?m)"
    by blast
  with au have v: "audit sampleURL (variantArtifacts ?m) = Inr ?p"
    by simp
  from t au have "(\<exists>page. sampleURL (finalUrl (URL ?a)) = Some page
        \<and> prefix (scopeUrl sampleDetails) (href page))
      \<and> is_href sampleURL (scopeUrl sampleDetails)"
    by blast
  then have n: "prefix (scopeUrl sampleDetails) (href samplePage)
      \<and> is_href sampleURL (scopeUrl sampleDetails)"
    by (simp add: sample_audit_fields sample_page)
  from rel c variant_same [of ?m] v n show ?thesis
    by simp
qed

text \<open>
  C10. The origin filter reads nothing of the page URL but its origin: for two page URLs
  of one origin it returns the same. So two audits of the same service-worker data, on
  pages of one origin, end in the no-worker product together or not at all.
\<close>

theorem origin_filter_path_independent:
  assumes "origin p = origin q"
  shows "getVersionsForOrigin newURL vs p = getVersionsForOrigin newURL vs q
       \<and> (newURL (finalUrl (URL a)) = Some p \<and> newURL (finalUrl (URL b)) = Some q
                \<and> ServiceWorker a = ServiceWorker b
             \<longrightarrow> (audit newURL a = Inr \<lparr>score = 0, explanation = None, details = None\<rparr>
                  \<longleftrightarrow> audit newURL b = Inr \<lparr>score = 0, explanation = None, details = None\<rparr>))"
  using getVersionsForOrigin_same_origin [OF assms]
  by (auto simp: audit_no_worker_iff)

theorem origin_filter_path_independent_witness:
  "origin samplePage = origin otherPage
   \<and> getVersionsForOrigin sampleURL sampleVersions otherPage = Inr sampleVersions
   \<and> audit sampleURL (noWorkerArtifacts ''https://example.com/other/'')
     = Inr \<lparr>score = 0, explanation = None, details = None\<rparr>"
proof -
  have o: "origin samplePage = origin otherPage"
    by (simp add: samplePage_def otherPage_def)
  have hyps: "sampleURL (finalUrl (URL (noWorkerArtifacts ''https://example.com/app/page'')))
       = Some samplePage
     \<and> sampleURL (finalUrl (URL (noWorkerArtifacts ''https://example.com/other/'')))
       = Some otherPage
     \<and> ServiceWorker (noWorkerArtifacts ''https://example.com/app/page'')
       = ServiceWorker (noWorkerArtifacts ''https://example.com/other/'')"
    by (simp add: noWorkerArtifacts_def mkArtifacts_def sample_page other_page)
  from origin_filter_path_independent [OF o, where newURL = sampleURL
      and vs = sampleVersions
      and a = "noWorkerArtifacts ''https://example.com/app/page''"
      and b = "noWorkerArtifacts ''https://example.com/other/''"]
    o sample_filter no_worker_audit hyps
  show ?thesis by simp
qed

end
